theory Spec2Isabelle
  imports Main "HOL-Library.AList"
begin

section \<open>The AMQP transporter (src/transporters/amqp.js)\<close>

subsection \<open>JavaScript values and option objects\<close>

text \<open>
  The option objects handed to the broker library hold numbers, booleans and strings.
  A number is only stored and passed on, never computed with, so an integer stands for it.
  An object is an association list in key order, the empty object is the empty list.
\<close>

datatype jsval = JNum int | JBool bool | JStr string

type_synonym obj = "(string \<times> jsval) list"

text \<open>
  \<^verbatim>\<open>Object.assign(target, source)\<close>: every key of the source is written on the target,
  a key the target has already keeps its place and takes the new value.
\<close>

definition Object_assign :: "obj \<Rightarrow> obj \<Rightarrow> obj" where
  "Object_assign tgt source = fold (\<lambda>(k, v). AList.update k v) source tgt"

datatype error = TypeError | BrokerError string | HandlerError string

subsection \<open>Packet types\<close>

text \<open>
  The packet type strings are imported from \<^verbatim>\<open>../packets\<close>, which is not part of the source
  at hand; the transporter only compares them and splices them into names, so they are a
  parameter of every function that uses them.
\<close>

record packets =
  PACKET_REQUEST :: string
  PACKET_RESPONSE :: string
  PACKET_UNKNOW :: string
  PACKET_EVENT :: string
  PACKET_DISCOVER :: string
  PACKET_INFO :: string
  PACKET_DISCONNECT :: string
  PACKET_HEARTBEAT :: string
  PACKET_PING :: string
  PACKET_PONG :: string

text \<open>
  Modelled from the spec: the values of the constants of \<^verbatim>\<open>../packets\<close> (the module is
  missing). Every category carries the name the specification gives it, as in
  \<^verbatim>\<open>{prefix}.RESPONSE.B\<close>.
\<close>

definition spec_packets :: packets where
  "spec_packets =
     \<lparr> PACKET_REQUEST = ''REQUEST'', PACKET_RESPONSE = ''RESPONSE'',
       PACKET_UNKNOW = ''UNKNOWN'', PACKET_EVENT = ''EVENT'',
       PACKET_DISCOVER = ''DISCOVER'', PACKET_INFO = ''INFO'',
       PACKET_DISCONNECT = ''DISCONNECT'', PACKET_HEARTBEAT = ''HEARTBEAT'',
       PACKET_PING = ''PING'', PACKET_PONG = ''PONG'' \<rparr>"

text \<open>The ten enumerated categories, and the keys the queue policy is asked for.\<close>

definition categories :: "packets \<Rightarrow> string list" where
  "categories c =
     [PACKET_REQUEST c, PACKET_RESPONSE c, PACKET_DISCOVER c, PACKET_DISCONNECT c,
      PACKET_UNKNOW c, PACKET_INFO c, PACKET_HEARTBEAT c, PACKET_PING c, PACKET_PONG c,
      PACKET_EVENT c]"

definition policy_keys :: "packets \<Rightarrow> string list" where
  "policy_keys c = categories c @ [PACKET_EVENT c @ ''LB'']"

subsection \<open>The transporter object\<close>

record amqp_opts =
  url :: string
  prefetch :: int
  eventTimeToLive :: int
  queueOptions :: obj
  exchangeOptions :: obj
  messageOptions :: obj
  consumeOptions :: obj

text \<open>
  What the caller passes to the constructor: a field is \<open>None\<close> when its \<^verbatim>\<open>typeof\<close> is not
  the one the constructor tests for.
\<close>

record amqp_args =
  arg_url :: string
  arg_prefetch :: "int option"
  arg_eventTimeToLive :: "int option"
  arg_queueOptions :: "obj option"
  arg_exchangeOptions :: "obj option"
  arg_messageOptions :: "obj option"
  arg_consumeOptions :: "obj option"

datatype ctor_arg = Url string | Opts amqp_args

type_synonym handle = nat

type_synonym binding = "string \<times> string \<times> string"

text \<open>
  \<open>connection\<close>, \<open>channel\<close> and \<open>bindings\<close> are \<open>None\<close> when the field is \<^verbatim>\<open>null\<close>.
  \<open>prefix\<close> and \<open>nodeID\<close> are set by the base class.
\<close>

record transporter =
  opts :: amqp_opts
  prefix :: string
  nodeID :: string
  connection :: "handle option"
  channel :: "handle option"
  bindings :: "binding list option"

definition default_opts :: "amqp_args \<Rightarrow> amqp_opts" where
  "default_opts a =
     \<lparr> url = arg_url a,
       prefetch = (case arg_prefetch a of None \<Rightarrow> 1 | Some n \<Rightarrow> n),
       eventTimeToLive = (case arg_eventTimeToLive a of None \<Rightarrow> 5000 | Some n \<Rightarrow> n),
       queueOptions = (case arg_queueOptions a of None \<Rightarrow> [] | Some x \<Rightarrow> x),
       exchangeOptions = (case arg_exchangeOptions a of None \<Rightarrow> [] | Some x \<Rightarrow> x),
       messageOptions = (case arg_messageOptions a of None \<Rightarrow> [] | Some x \<Rightarrow> x),
       consumeOptions = (case arg_consumeOptions a of None \<Rightarrow> [] | Some x \<Rightarrow> x) \<rparr>"

definition url_args :: "string \<Rightarrow> amqp_args" where
  "url_args u =
     \<lparr> arg_url = u, arg_prefetch = None, arg_eventTimeToLive = None,
       arg_queueOptions = None, arg_exchangeOptions = None,
       arg_messageOptions = None, arg_consumeOptions = None \<rparr>"

text \<open>The constructor; the prefix and the node id come from the base class's set-up.\<close>

definition constructor :: "string \<Rightarrow> string \<Rightarrow> ctor_arg \<Rightarrow> transporter" where
  "constructor pfx nid a =
     \<lparr> opts = default_opts (case a of Url u \<Rightarrow> url_args u | Opts x \<Rightarrow> x),
       prefix = pfx, nodeID = nid,
       connection = None, channel = None, bindings = Some [] \<rparr>"

subsection \<open>\<^verbatim>\<open>_getQueueOptions\<close>\<close>

text \<open>
  The \<^verbatim>\<open>switch\<close> compares the argument with each label in turn. When no label matches,
  \<^verbatim>\<open>packetOptions\<close> stays undefined and \<^verbatim>\<open>Object.assign\<close> raises a TypeError.
\<close>

definition getQueueOptions :: "packets \<Rightarrow> transporter \<Rightarrow> string \<Rightarrow> error + obj" where
  "getQueueOptions c t packetType =
     (let packetOptions =
        (if packetType = PACKET_REQUEST c \<or> packetType = PACKET_RESPONSE c
           then Some []
         else if packetType = PACKET_DISCOVER c \<or> packetType = PACKET_DISCONNECT c
               \<or> packetType = PACKET_UNKNOW c \<or> packetType = PACKET_INFO c
               \<or> packetType = PACKET_HEARTBEAT c \<or> packetType = PACKET_PING c
               \<or> packetType = PACKET_PONG c
           then Some [(''messageTtl'', JNum 5000), (''autoDelete'', JBool True)]
         else if packetType = PACKET_EVENT c
           then Some [(''messageTtl'', JNum (eventTimeToLive (opts t))),
                      (''autoDelete'', JBool True)]
         else if packetType = PACKET_EVENT c @ ''LB''
           then Some []
         else None)
      in case packetOptions of
           None \<Rightarrow> Inl TypeError
         | Some po \<Rightarrow> Inr (Object_assign po (queueOptions (opts t))))"

subsection \<open>Packets, broker calls and results\<close>

text \<open>
  The fields of \<^verbatim>\<open>packet.payload\<close> the transporter reads; \<open>None\<close> is an absent field.
  A template literal prints an absent value as \<^verbatim>\<open>undefined\<close>.
\<close>

record payload =
  groups :: "string list option"
  event :: "string option"
  action :: "string option"

record packet =
  type :: string
  target :: "string option"
  payload :: payload

definition tmpl :: "string option \<Rightarrow> string" where
  "tmpl v = (case v of None \<Rightarrow> ''undefined'' | Some s \<Rightarrow> s)"

text \<open>\<^verbatim>\<open>!packet.target\<close> holds for an absent target and for the empty string.\<close>

definition falsy :: "string option \<Rightarrow> bool" where
  "falsy v = (v = None \<or> v = Some [])"

record msg =
  content :: string

text \<open>
  Every call the transporter makes on the channel, the connection, the message handler and
  the logger, in the order the calls are made. A buffer built from \<^verbatim>\<open>packet.serialize()\<close>
  is the packet as it is at that moment. The callback built by \<^verbatim>\<open>_consumeCB(cmd, needAck)\<close>
  is the pair of its two arguments.
\<close>

datatype call =
    AssertQueue string obj
  | AssertExchange string string obj
  | BindQueue string string string
  | UnbindQueue string string string
  | Consume string string bool obj
  | SendToQueue string packet obj
  | Publish string string packet obj
  | Ack msg
  | Nack msg
  | ChannelClose
  | ConnectionClose
  | MessageHandler string string
  | LogWarn error
  | LogError string error

text \<open>
  The broker's answer to a call that returns a promise: \<open>None\<close> when the promise is
  fulfilled, \<open>Some e\<close> when it is rejected with \<open>e\<close>. \<^verbatim>\<open>sendToQueue\<close>, \<^verbatim>\<open>publish\<close>,
  \<^verbatim>\<open>ack\<close> and \<^verbatim>\<open>nack\<close> return no promise and are never asked about.
\<close>

type_synonym broker = "call \<Rightarrow> error option"

definition accepting :: broker where
  "accepting = (\<lambda>_. None)"

text \<open>What a method hands back: \<^verbatim>\<open>undefined\<close>, a settled promise, or an exception.\<close>

datatype ret = Undefined | Promise_resolved | Promise_rejected error | Threw error

text \<open>What a caller that awaits the result sees.\<close>

fun awaited :: "ret \<Rightarrow> error option" where
  "awaited Undefined = None"
| "awaited Promise_resolved = None"
| "awaited (Promise_rejected e) = Some e"
| "awaited (Threw e) = Some e"

text \<open>\<^verbatim>\<open>Promise.all\<close> over calls already made: the first rejection, if there is one.\<close>

fun first_rejection :: "broker \<Rightarrow> call list \<Rightarrow> error option" where
  "first_rejection br [] = None"
| "first_rejection br (x # xs) =
     (case br x of Some e \<Rightarrow> Some e | None \<Rightarrow> first_rejection br xs)"

text \<open>
  Modelled from the spec: \<^verbatim>\<open>getTopicName\<close> of the base class \<^verbatim>\<open>./base\<close> (the module is
  missing): \<^verbatim>\<open>{prefix}.{category}\<close>, and \<^verbatim>\<open>{prefix}.{category}.{nodeID}\<close> for a node.
\<close>

definition getTopicName :: "transporter \<Rightarrow> string \<Rightarrow> string option \<Rightarrow> string" where
  "getTopicName t cmd nid =
     prefix t @ ''.'' @ cmd @ (case nid of None \<Rightarrow> [] | Some n \<Rightarrow> ''.'' @ n)"

subsection \<open>\<^verbatim>\<open>connect\<close> and \<^verbatim>\<open>disconnect\<close>\<close>

text \<open>
  What a successful \<^verbatim>\<open>connect\<close> leaves in the object: the connection and the channel.
  It does not touch \<open>bindings\<close>.
\<close>

definition connect :: "handle \<Rightarrow> handle \<Rightarrow> transporter \<Rightarrow> transporter" where
  "connect conn ch t = t\<lparr>connection := Some conn, channel := Some ch\<rparr>"

definition unbind :: "binding \<Rightarrow> call" where
  "unbind b = (case b of (q, x, k) \<Rightarrow> UnbindQueue q x k)"

text \<open>
  All the unbind calls are made at once; the chain behind \<^verbatim>\<open>Promise.all\<close> runs one step
  after the other and the single \<^verbatim>\<open>catch\<close> at its end logs the first failure.
\<close>

definition disconnect :: "broker \<Rightarrow> transporter \<Rightarrow> ret \<times> transporter \<times> call list" where
  "disconnect br t =
     (case (connection t, channel t, bindings t) of
        (Some conn, Some ch, Some bs) \<Rightarrow>
          (let unbinds = map unbind bs in
           case first_rejection br unbinds of
             Some err \<Rightarrow> (Promise_resolved, t, unbinds @ [LogWarn err])
           | None \<Rightarrow>
              (case br ChannelClose of
                 Some err \<Rightarrow> (Promise_resolved, t, unbinds @ [ChannelClose, LogWarn err])
               | None \<Rightarrow>
                  (case br ConnectionClose of
                     Some err \<Rightarrow>
                       (Promise_resolved, t,
                        unbinds @ [ChannelClose, ConnectionClose, LogWarn err])
                   | None \<Rightarrow>
                       (Promise_resolved,
                        t\<lparr>connection := None, channel := None, bindings := None\<rparr>,
                        unbinds @ [ChannelClose, ConnectionClose]))))
      | _ \<Rightarrow> (Undefined, t, []))"

subsection \<open>\<^verbatim>\<open>_consumeCB\<close>\<close>





subsection \<open>\<^verbatim>\<open>subscribe\<close>\<close>

definition consume_noAck :: "transporter \<Rightarrow> string \<Rightarrow> string \<Rightarrow> call" where
  "consume_noAck t queue cmd =
     Consume queue cmd False
       (Object_assign [(''noAck'', JBool True)] (consumeOptions (opts t)))"

text \<open>
  With a node id the queue is declared and then consumed. Without one the binding is
  recorded first, exchange and queue are declared together, and binding and consuming
  follow once both declarations are through. The arguments of a call are evaluated before
  the call is made, so a failing \<^verbatim>\<open>_getQueueOptions\<close> stops the method there.
\<close>

definition subscribe ::
  "packets \<Rightarrow> broker \<Rightarrow> transporter \<Rightarrow> string \<Rightarrow> string option
     \<Rightarrow> ret \<times> transporter \<times> call list" where
  "subscribe c br t cmd nid =
     (case channel t of
        None \<Rightarrow> (Undefined, t, [])
      | Some ch \<Rightarrow>
         (let topic = getTopicName t cmd nid in
          case nid of
            Some n \<Rightarrow>
              (case getQueueOptions c t cmd of
                 Inl e \<Rightarrow> (Threw e, t, [])
               | Inr qo \<Rightarrow>
                  (let aq = AssertQueue topic qo;
                       co = consume_noAck t topic cmd
                   in case br aq of
                        Some e \<Rightarrow> (Promise_rejected e, t, [aq])
                      | None \<Rightarrow>
                         (case br co of
                            Some e \<Rightarrow> (Promise_rejected e, t, [aq, co])
                          | None \<Rightarrow> (Promise_resolved, t, [aq, co]))))
          | None \<Rightarrow>
              (let queueName = prefix t @ ''.'' @ cmd @ ''.'' @ nodeID t;
                   bindingArgs = (queueName, topic, [])
               in case bindings t of
                    None \<Rightarrow> (Threw TypeError, t, [])
                  | Some bs \<Rightarrow>
                     (let t' = t\<lparr>bindings := Some (bs @ [bindingArgs])\<rparr>;
                          ax = AssertExchange topic ''fanout'' (exchangeOptions (opts t))
                      in case getQueueOptions c t cmd of
                           Inl e \<Rightarrow> (Threw e, t', [ax])
                         | Inr qo \<Rightarrow>
                            (let aq = AssertQueue queueName qo;
                                 bq = BindQueue queueName topic [];
                                 co = consume_noAck t queueName cmd
                             in case first_rejection br [ax, aq] of
                                  Some e \<Rightarrow> (Promise_rejected e, t', [ax, aq])
                                | None \<Rightarrow>
                                   (case first_rejection br [bq, co] of
                                      Some e \<Rightarrow> (Promise_rejected e, t', [ax, aq, bq, co])
                                    | None \<Rightarrow> (Promise_resolved, t', [ax, aq, bq, co])))))))"

subsection \<open>\<^verbatim>\<open>_makeServiceSpecificSubscriptions\<close>\<close>

text \<open>
  A local service as \<^verbatim>\<open>getLocalNodeInfo\<close> lists it: its name, the keys of its \<^verbatim>\<open>actions\<close>
  object, and the keys of its \<^verbatim>\<open>events\<close> object, each with the \<^verbatim>\<open>group\<close> of its entry.
  \<open>None\<close> is an absent field.
\<close>

record service =
  name :: string
  actions :: "string list option"
  events :: "(string \<times> string option) list option"

text \<open>\<^verbatim>\<open>service.events[event].group || service.name\<close>: an absent or empty group is falsy.\<close>

definition group_of :: "service \<Rightarrow> string option \<Rightarrow> string" where
  "group_of s g = (case g of None \<Rightarrow> name s | Some x \<Rightarrow> if x = [] then name s else x)"

text \<open>
  One queue to declare and consume: its name, the key its options are looked up with, and
  the packet type its consumer handles.
\<close>

type_synonym queue_decl = "string \<times> string \<times> string"

definition action_queue :: "packets \<Rightarrow> transporter \<Rightarrow> string \<Rightarrow> queue_decl" where
  "action_queue c t a =
     (prefix t @ ''.'' @ PACKET_REQUEST c @ ''B.'' @ a, PACKET_REQUEST c, PACKET_REQUEST c)"

definition event_queue ::
  "packets \<Rightarrow> transporter \<Rightarrow> service \<Rightarrow> string \<times> string option \<Rightarrow> queue_decl" where
  "event_queue c t s e =
     (case e of (ev, g) \<Rightarrow>
        (prefix t @ ''.'' @ PACKET_EVENT c @ ''B.'' @ group_of s g @ ''.'' @ ev,
         PACKET_EVENT c @ ''LB'', PACKET_EVENT c))"

definition service_queues :: "packets \<Rightarrow> transporter \<Rightarrow> service \<Rightarrow> queue_decl list" where
  "service_queues c t s =
     (if actions s = None \<and> events s = None then []
      else (case actions s of None \<Rightarrow> [] | Some as \<Rightarrow> map (action_queue c t) as)
         @ (case events s of None \<Rightarrow> [] | Some es \<Rightarrow> map (event_queue c t s) es))"

text \<open>
  The declarations are made one after the other while the services are mapped; a failing
  \<^verbatim>\<open>_getQueueOptions\<close> would stop the mapping there. Each declaration comes with the
  consumer that is attached once the broker has confirmed it.
\<close>

fun declare_queues ::
  "packets \<Rightarrow> transporter \<Rightarrow> queue_decl list \<Rightarrow> error option \<times> (call \<times> call) list" where
  "declare_queues c t [] = (None, [])"
| "declare_queues c t ((queue, key, cmd) # qs) =
     (case getQueueOptions c t key of
        Inl e \<Rightarrow> (Some e, [])
      | Inr qo \<Rightarrow>
         (case declare_queues c t qs of
            (r, ds) \<Rightarrow>
              (r, (AssertQueue queue qo,
                   Consume queue cmd True (consumeOptions (opts t))) # ds)))"

text \<open>
  The broker answers the declarations in the order they were made, so the consumers of the
  confirmed queues are attached in that order, after the last declaration has gone out.
\<close>

definition makeServiceSpecificSubscriptions ::
  "packets \<Rightarrow> broker \<Rightarrow> service list \<Rightarrow> transporter \<Rightarrow> ret \<times> call list" where
  "makeServiceSpecificSubscriptions c br services t =
     (case declare_queues c t (concat (map (service_queues c t) services)) of
        (thrown, ds) \<Rightarrow>
          (let asserts = map fst ds;
               consumes = map snd (filter (\<lambda>d. br (fst d) = None) ds)
           in (case thrown of
                 Some e \<Rightarrow> Threw e
               | None \<Rightarrow>
                  (case first_rejection br (asserts @ consumes) of
                     Some e \<Rightarrow> Promise_rejected e
                   | None \<Rightarrow> Promise_resolved),
               asserts @ consumes)))"

subsection \<open>\<^verbatim>\<open>publish\<close>\<close>

definition set_groups :: "packet \<Rightarrow> string list \<Rightarrow> packet" where
  "set_groups p gs = p\<lparr>payload := (payload p)\<lparr>groups := Some gs\<rparr>\<rparr>"

text \<open>
  One round of the \<^verbatim>\<open>forEach\<close> over the groups: the packet's groups are overwritten and
  the packet, as it is then, is serialized and sent to the group's queue.
\<close>

definition send_group ::
  "packets \<Rightarrow> transporter \<Rightarrow> string \<Rightarrow> packet \<times> call list \<Rightarrow> packet \<times> call list" where
  "send_group c t g st =
     (case st of (p, cs) \<Rightarrow>
        (let queue = prefix t @ ''.'' @ PACKET_EVENT c @ ''B.'' @ g @ ''.''
                       @ tmpl (event (payload p));
             p' = set_groups p [g]
         in (p', cs @ [SendToQueue queue p' (messageOptions (opts t))])))"

text \<open>
  \<open>publish\<close> returns its result, the caller's packet as the call leaves it, and the calls
  made.
\<close>

definition publish ::
  "packets \<Rightarrow> broker \<Rightarrow> service list \<Rightarrow> transporter \<Rightarrow> packet
     \<Rightarrow> ret \<times> packet \<times> call list" where
  "publish c br services t p =
     (case channel t of
        None \<Rightarrow> (Promise_resolved, p, [])
      | Some ch \<Rightarrow>
         (let topic = getTopicName t (type p) (target p) in
          case (if type p = PACKET_EVENT c \<and> falsy (target p)
                then groups (payload p) else None) of
            Some (g # gs) \<Rightarrow>
              (case fold (send_group c t) (g # gs) (p, []) of
                 (p', cs) \<Rightarrow> (Promise_resolved, p', cs))
          | _ \<Rightarrow>
              (if type p = PACKET_REQUEST c \<and> target p = None
               then (Promise_resolved, p,
                     [SendToQueue
                        (prefix t @ ''.'' @ PACKET_REQUEST c @ ''B.''
                           @ tmpl (action (payload p)))
                        p (messageOptions (opts t))])
               else
                 (let sent = (case target p of
                                Some n \<Rightarrow> SendToQueue topic p (messageOptions (opts t))
                              | None \<Rightarrow> Publish topic [] p (messageOptions (opts t)))
                  in if type p = PACKET_INFO c \<and> target p = None
                     then (case makeServiceSpecificSubscriptions c br services t of
                             (r, cs) \<Rightarrow> (r, p, sent # cs))
                     else (Promise_resolved, p, [sent])))))"

subsection \<open>Concrete transporters, packets, services and brokers\<close>

definition zero_ttl_args :: amqp_args where
  "zero_ttl_args = (url_args ''amqp://localhost'')\<lparr>arg_eventTimeToLive := Some 0\<rparr>"

definition fresh :: transporter where
  "fresh = constructor ''MOL'' ''node-1'' (Url ''amqp://localhost'')"

definition fresh_zero_ttl :: transporter where
  "fresh_zero_ttl = constructor ''MOL'' ''node-1'' (Opts zero_ttl_args)"

definition online :: transporter where
  "online = connect 1 1 fresh"

definition event_packet :: packet where
  "event_packet =
     \<lparr> type = ''EVENT'', target = None,
       payload = \<lparr> groups = Some [''g1'', ''g2''], event = Some ''user.created'',
                   action = None \<rparr> \<rparr>"

definition broadcast_event_packet :: packet where
  "broadcast_event_packet =
     \<lparr> type = ''EVENT'', target = None,
       payload = \<lparr> groups = Some [], event = Some ''user.created'', action = None \<rparr> \<rparr>"

definition request_packet :: packet where
  "request_packet =
     \<lparr> type = ''REQUEST'', target = None,
       payload = \<lparr> groups = None, event = None, action = Some ''foo'' \<rparr> \<rparr>"

definition info_packet :: packet where
  "info_packet =
     \<lparr> type = ''INFO'', target = None,
       payload = \<lparr> groups = None, event = None, action = None \<rparr> \<rparr>"

definition math_service :: service where
  "math_service =
     \<lparr> name = ''math'', actions = Some [''math.add''],
       events = Some [(''user.created'', None), (''order.paid'', Some ''billing'')] \<rparr>"


text \<open>A broker that rejects every unbind and accepts everything else.\<close>

definition refusing_unbind :: broker where
  "refusing_unbind x =
     (case x of UnbindQueue q e k \<Rightarrow> Some (BrokerError ''unbind refused'') | _ \<Rightarrow> None)"

text \<open>The transporter after one broadcast subscription.\<close>

definition subscribed :: transporter where
  "subscribed = fst (snd (subscribe spec_packets accepting online ''INFO'' None))"

text \<open>The transporter after a graceful disconnect and a second successful connect.\<close>

definition reconnected :: transporter where
  "reconnected = connect 2 2 (fst (snd (disconnect accepting online)))"

text \<open>
  The two calls a queue of the service topology comes to when its options are those of a
  non-expiring key: the declaration and the consumer with \<open>needAck\<close> set.
\<close>

definition decl_calls :: "transporter \<Rightarrow> queue_decl \<Rightarrow> call \<times> call" where
  "decl_calls t d =
     (case d of (queue, key, cmd) \<Rightarrow>
        (AssertQueue queue (Object_assign [] (queueOptions (opts t))),
         Consume queue cmd True (consumeOptions (opts t))))"

lemmas ctor_simps = constructor_def default_opts_def url_args_def fresh_def

lemmas online_simps = online_def connect_def ctor_simps

section \<open>The queue policy\<close>

lemma Object_assign_Nil [simp]: "Object_assign po [] = po"
  by (simp add: Object_assign_def)

lemma request_options:
  "k = PACKET_REQUEST c \<or> k = PACKET_RESPONSE c \<Longrightarrow>
     getQueueOptions c t k = Inr (Object_assign [] (queueOptions (opts t)))"
  by (simp add: getQueueOptions_def)

lemma control_options:
  assumes "k \<noteq> PACKET_REQUEST c" and "k \<noteq> PACKET_RESPONSE c"
    and "k \<in> {PACKET_DISCOVER c, PACKET_DISCONNECT c, PACKET_UNKNOW c, PACKET_INFO c,
              PACKET_HEARTBEAT c, PACKET_PING c, PACKET_PONG c}"
  shows "getQueueOptions c t k =
           Inr (Object_assign [(''messageTtl'', JNum 5000), (''autoDelete'', JBool True)]
                  (queueOptions (opts t)))"
  using assms by (simp add: getQueueOptions_def)

lemma event_options:
  assumes "PACKET_EVENT c \<notin> {PACKET_REQUEST c, PACKET_RESPONSE c, PACKET_DISCOVER c,
             PACKET_DISCONNECT c, PACKET_UNKNOW c, PACKET_INFO c, PACKET_HEARTBEAT c,
             PACKET_PING c, PACKET_PONG c}"
  shows "getQueueOptions c t (PACKET_EVENT c) =
           Inr (Object_assign
                  [(''messageTtl'', JNum (eventTimeToLive (opts t))),
                   (''autoDelete'', JBool True)]
                  (queueOptions (opts t)))"
  using assms by (simp add: getQueueOptions_def)

lemma event_LB_options:
  assumes "PACKET_EVENT c @ ''LB'' \<notin> set (categories c)"
  shows "getQueueOptions c t (PACKET_EVENT c @ ''LB'')
           = Inr (Object_assign [] (queueOptions (opts t)))"
  using assms by (simp add: getQueueOptions_def categories_def)

lemma unknown_options:
  "k \<notin> set (policy_keys c) \<Longrightarrow> getQueueOptions c t k = Inl TypeError"
  by (simp add: getQueueOptions_def policy_keys_def categories_def)

lemma policy_keys_cases:
  assumes "k \<in> set (policy_keys c)"
  obtains (req) "k = PACKET_REQUEST c \<or> k = PACKET_RESPONSE c"
  | (ctl) "k \<in> {PACKET_DISCOVER c, PACKET_DISCONNECT c, PACKET_UNKNOW c, PACKET_INFO c,
                 PACKET_HEARTBEAT c, PACKET_PING c, PACKET_PONG c}"
  | (ev) "k = PACKET_EVENT c"
  | (lb) "k = PACKET_EVENT c @ ''LB''"
  using assms unfolding policy_keys_def categories_def by auto

lemma distinct_policy_keys:
  assumes "distinct (policy_keys c)"
  shows "PACKET_EVENT c @ ''LB'' \<notin> set (categories c)"
    and "PACKET_EVENT c \<notin> {PACKET_REQUEST c, PACKET_RESPONSE c, PACKET_DISCOVER c,
           PACKET_DISCONNECT c, PACKET_UNKNOW c, PACKET_INFO c, PACKET_HEARTBEAT c,
           PACKET_PING c, PACKET_PONG c}"
    and "{PACKET_DISCOVER c, PACKET_DISCONNECT c, PACKET_UNKNOW c, PACKET_INFO c,
          PACKET_HEARTBEAT c, PACKET_PING c, PACKET_PONG c}
          \<inter> {PACKET_REQUEST c, PACKET_RESPONSE c, PACKET_EVENT c, PACKET_EVENT c @ ''LB''}
         = {}"
  using assms unfolding policy_keys_def categories_def by auto

lemma distinct_spec_packets: "distinct (policy_keys spec_packets)"
  by (simp add: policy_keys_def categories_def spec_packets_def)

text \<open>
  C1, as stated, fails. The switch has no label for a load-balanced REQUEST key: asked for
  the REQUEST type followed by \<^verbatim>\<open>LB\<close>, or for the literal \<^verbatim>\<open>REQUEST-LB\<close>, the function raises
  a TypeError instead of returning a policy. And the expiry of the EVENT category is the
  configured \<^verbatim>\<open>eventTimeToLive\<close>, which the constructor accepts as any number: configured
  as 0 it is returned as 0, which is not positive.
\<close>

theorem getQueueOptions_request_LB_counterexample:
  "getQueueOptions spec_packets fresh (PACKET_REQUEST spec_packets @ ''LB'') = Inl TypeError
   \<and> getQueueOptions spec_packets fresh ''REQUEST-LB'' = Inl TypeError
   \<and> getQueueOptions spec_packets fresh_zero_ttl (PACKET_EVENT spec_packets)
       = Inr [(''messageTtl'', JNum 0), (''autoDelete'', JBool True)]"
  by (simp add: getQueueOptions_def spec_packets_def ctor_simps fresh_zero_ttl_def
        zero_ttl_args_def)

text \<open>
  C1, amended. With pairwise different type strings and an empty \<^verbatim>\<open>queueOptions\<close> override,
  \<^verbatim>\<open>_getQueueOptions\<close> returns a policy exactly for the ten enumerated categories and the one
  synthetic key, the EVENT type followed by \<^verbatim>\<open>LB\<close>. The policy is the empty object (no expiry,
  no auto-delete) if and only if the key is REQUEST, RESPONSE or that synthetic key; for
  every other category it is \<^verbatim>\<open>autoDelete: true\<close> with \<^verbatim>\<open>messageTtl\<close> 5000, and for EVENT with
  \<^verbatim>\<open>messageTtl\<close> the configured \<^verbatim>\<open>eventTimeToLive\<close>. Any other key raises a TypeError.
\<close>

theorem getQueueOptions_policy:
  assumes d: "distinct (policy_keys c)" and q: "queueOptions (opts t) = []"
  shows "(k \<in> set (policy_keys c) \<longrightarrow>
           getQueueOptions c t k =
             Inr (if k = PACKET_REQUEST c \<or> k = PACKET_RESPONSE c
                      \<or> k = PACKET_EVENT c @ ''LB''
                  then []
                  else [(''messageTtl'',
                          JNum (if k = PACKET_EVENT c then eventTimeToLive (opts t)
                                else 5000)),
                        (''autoDelete'', JBool True)]))
       \<and> (k \<notin> set (policy_keys c) \<longrightarrow> getQueueOptions c t k = Inl TypeError)"
proof (intro conjI impI)
  assume "k \<in> set (policy_keys c)"
  then show "getQueueOptions c t k =
             Inr (if k = PACKET_REQUEST c \<or> k = PACKET_RESPONSE c
                      \<or> k = PACKET_EVENT c @ ''LB''
                  then []
                  else [(''messageTtl'',
                          JNum (if k = PACKET_EVENT c then eventTimeToLive (opts t)
                                else 5000)),
                        (''autoDelete'', JBool True)])"
  proof (cases rule: policy_keys_cases)
    case req
    then show ?thesis using q by (auto simp add: request_options)
  next
    case ctl
    with distinct_policy_keys(3) [OF d]
    have n: "k \<noteq> PACKET_REQUEST c" "k \<noteq> PACKET_RESPONSE c"
      "k \<noteq> PACKET_EVENT c" "k \<noteq> PACKET_EVENT c @ ''LB''"
      by blast+
    show ?thesis using n q control_options [OF n(1) n(2) ctl] by simp
  next
    case ev
    from distinct_policy_keys(2) [OF d]
    have n: "PACKET_EVENT c \<noteq> PACKET_REQUEST c" "PACKET_EVENT c \<noteq> PACKET_RESPONSE c"
      by simp_all
    show ?thesis using n q ev event_options [OF distinct_policy_keys(2) [OF d]] by simp
  next
    case lb
    then show ?thesis using q event_LB_options [OF distinct_policy_keys(1) [OF d]] by simp
  qed
next
  assume "k \<notin> set (policy_keys c)"
  then show "getQueueOptions c t k = Inl TypeError" by (rule unknown_options)
qed

theorem getQueueOptions_policy_witness:
  "getQueueOptions spec_packets fresh ''INFO''
     = Inr [(''messageTtl'', JNum 5000), (''autoDelete'', JBool True)]
   \<and> getQueueOptions spec_packets fresh ''EVENT''
     = Inr [(''messageTtl'', JNum 5000), (''autoDelete'', JBool True)]
   \<and> getQueueOptions spec_packets fresh ''RESPONSE'' = Inr []
   \<and> getQueueOptions spec_packets fresh ''EVENTLB'' = Inr []
   \<and> getQueueOptions spec_packets fresh ''EVENT-LB'' = Inl TypeError"
proof -
  have q: "queueOptions (opts fresh) = []"
    by (simp add: ctor_simps)
  have k: "''INFO'' \<in> set (policy_keys spec_packets)"
    "''EVENT'' \<in> set (policy_keys spec_packets)"
    "''RESPONSE'' \<in> set (policy_keys spec_packets)"
    "''EVENTLB'' \<in> set (policy_keys spec_packets)"
    "''EVENT-LB'' \<notin> set (policy_keys spec_packets)"
    by (simp_all add: policy_keys_def categories_def spec_packets_def)
  have e: "eventTimeToLive (opts fresh) = 5000"
    by (simp add: ctor_simps)
  show ?thesis
    using getQueueOptions_policy [OF distinct_spec_packets q, of "''INFO''"]
      getQueueOptions_policy [OF distinct_spec_packets q, of "''EVENT''"]
      getQueueOptions_policy [OF distinct_spec_packets q, of "''RESPONSE''"]
      getQueueOptions_policy [OF distinct_spec_packets q, of "''EVENTLB''"]
      getQueueOptions_policy [OF distinct_spec_packets q, of "''EVENT-LB''"] k e
    by (simp add: spec_packets_def)
qed

section \<open>Publishing\<close>

lemma set_groups_simps [simp]:
  "event (payload (set_groups p gs)) = event (payload p)"
  "set_groups (set_groups p gs) gs' = set_groups p gs'"
  "groups (payload (set_groups p gs)) = Some gs"
  "type (set_groups p gs) = type p"
  "target (set_groups p gs) = target p"
  by (simp_all add: set_groups_def)

lemma send_group_step:
  "send_group c t g (p, cs) =
     (set_groups p [g],
      cs @ [SendToQueue
              (prefix t @ ''.'' @ PACKET_EVENT c @ ''B.'' @ g @ ''.''
                 @ tmpl (event (payload p)))
              (set_groups p [g]) (messageOptions (opts t))])"
  by (simp add: send_group_def Let_def)

text \<open>
  The loop over the groups: every round sends the packet with that one group, and the packet
  keeps the group of the last round.
\<close>

lemma fold_send_group:
  "fold (send_group c t) gs (p, cs) =
     ((if gs = [] then p else set_groups p [last gs]),
      cs @ map (\<lambda>g. SendToQueue
                      (prefix t @ ''.'' @ PACKET_EVENT c @ ''B.'' @ g @ ''.''
                         @ tmpl (event (payload p)))
                      (set_groups p [g]) (messageOptions (opts t))) gs)"
proof (induction gs arbitrary: p cs)
  case Nil
  then show ?case by simp
next
  case (Cons g gs)
  show ?case by (simp add: Cons.IH send_group_step)
qed

lemma publish_groups:
  assumes "channel t \<noteq> None" and "type p = PACKET_EVENT c" and "target p = None"
    and "groups (payload p) = Some gs" and "gs \<noteq> []"
  shows "publish c br services t p =
     (Promise_resolved, set_groups p [last gs],
      map (\<lambda>g. SendToQueue
                 (prefix t @ ''.'' @ PACKET_EVENT c @ ''B.'' @ g @ ''.''
                    @ tmpl (event (payload p)))
                 (set_groups p [g]) (messageOptions (opts t))) gs)"
proof -
  from assms(5) obtain g gs' where gs: "gs = g # gs'" by (cases gs) auto
  show ?thesis
    using assms(1-4) unfolding gs publish_def
    by (auto simp add: falsy_def fold_send_group simp del: fold.simps)
qed

text \<open>
  Whatever the type strings are, the load-balanced queue names the code builds end the
  type with the letter \<^verbatim>\<open>B\<close>, never with \<^verbatim>\<open>-LB\<close>.
\<close>

lemma balanced_names_not_LB:
  "pfx @ ''.'' @ ty @ ''B.'' @ rest \<noteq> pfx @ ''.'' @ ty @ ''-LB.'' @ rest"
  by simp

text \<open>
  C2, as stated, fails on the queue names. An EVENT with groups \<^verbatim>\<open>g1\<close>, \<^verbatim>\<open>g2\<close> and no target,
  published with prefix \<^verbatim>\<open>MOL\<close>, goes to \<^verbatim>\<open>MOL.EVENTB.g1.user.created\<close> and
  \<^verbatim>\<open>MOL.EVENTB.g2.user.created\<close>, not to the \<^verbatim>\<open>MOL.EVENT-LB.\<close> queues the claim names.
\<close>

theorem publish_event_groups_counterexample:
  "snd (snd (publish spec_packets accepting [] online event_packet)) =
     [SendToQueue ''MOL.EVENTB.g1.user.created'' (set_groups event_packet [''g1'']) [],
      SendToQueue ''MOL.EVENTB.g2.user.created'' (set_groups event_packet [''g2'']) []]
   \<and> snd (snd (publish spec_packets accepting [] online event_packet)) \<noteq>
     [SendToQueue ''MOL.EVENT-LB.g1.user.created'' (set_groups event_packet [''g1'']) [],
      SendToQueue ''MOL.EVENT-LB.g2.user.created'' (set_groups event_packet [''g2'']) []]"
  by (simp add: publish_def online_simps event_packet_def spec_packets_def falsy_def
        send_group_def tmpl_def set_groups_def Let_def)

text \<open>
  C2, amended. On an open channel, for every EVENT packet with target null and
  \<^verbatim>\<open>payload.groups\<close> a non-empty list of n groups, \<^verbatim>\<open>publish\<close> makes exactly n
  \<^verbatim>\<open>sendToQueue\<close> calls and no other call, one per group in list order, each to the queue
  named prefix, dot, the EVENT type string followed by \<^verbatim>\<open>B\<close>, dot, group, dot, event name,
  each with the packet serialized with its groups rewritten to that single group.
\<close>

theorem publish_event_groups:
  assumes "channel t \<noteq> None" and "type p = PACKET_EVENT c" and "target p = None"
    and "groups (payload p) = Some gs" and "gs \<noteq> []"
  shows "snd (snd (publish c br services t p)) =
           map (\<lambda>g. SendToQueue
                      (prefix t @ ''.'' @ PACKET_EVENT c @ ''B.'' @ g @ ''.''
                         @ tmpl (event (payload p)))
                      (set_groups p [g]) (messageOptions (opts t))) gs
       \<and> length (snd (snd (publish c br services t p))) = length gs
       \<and> fst (publish c br services t p) = Promise_resolved"
  by (simp add: publish_groups [OF assms])

theorem publish_event_groups_witness:
  "snd (snd (publish spec_packets accepting [] online event_packet)) =
     [SendToQueue ''MOL.EVENTB.g1.user.created'' (set_groups event_packet [''g1'']) [],
      SendToQueue ''MOL.EVENTB.g2.user.created'' (set_groups event_packet [''g2'']) []]
   \<and> length (snd (snd (publish spec_packets accepting [] online event_packet))) = 2"
proof -
  have h: "channel online \<noteq> None" "type event_packet = PACKET_EVENT spec_packets"
    "target event_packet = None" "groups (payload event_packet) = Some [''g1'', ''g2'']"
    "[''g1'', ''g2''] \<noteq> []"
    by (simp_all add: online_simps event_packet_def spec_packets_def)
  show ?thesis
    using publish_event_groups [OF h, of accepting "[]"]
    by (simp add: online_simps event_packet_def spec_packets_def tmpl_def)
qed

text \<open>
  C9. On an open channel, publishing an EVENT packet with target null and a non-empty groups
  list changes the caller's packet: when \<^verbatim>\<open>publish\<close> returns, \<^verbatim>\<open>packet.payload.groups\<close> is the
  one-element list holding the last group of the original list, and nothing else of the
  packet has changed.
\<close>

theorem publish_rewrites_caller_packet:
  assumes "channel t \<noteq> None" and "type p = PACKET_EVENT c" and "target p = None"
    and "groups (payload p) = Some gs" and "gs \<noteq> []"
  shows "fst (snd (publish c br services t p))
           = p\<lparr>payload := (payload p)\<lparr>groups := Some [last gs]\<rparr>\<rparr>
       \<and> groups (payload (fst (snd (publish c br services t p)))) = Some [last gs]"
  by (simp add: publish_groups [OF assms]) (simp add: set_groups_def)

theorem publish_rewrites_caller_packet_witness:
  "groups (payload (fst (snd (publish spec_packets accepting [] online event_packet))))
     = Some [''g2'']
   \<and> groups (payload event_packet) = Some [''g1'', ''g2'']"
proof -
  have h: "channel online \<noteq> None" "type event_packet = PACKET_EVENT spec_packets"
    "target event_packet = None" "groups (payload event_packet) = Some [''g1'', ''g2'']"
    "[''g1'', ''g2''] \<noteq> []"
    by (simp_all add: online_simps event_packet_def spec_packets_def)
  show ?thesis
    using publish_rewrites_caller_packet [OF h, of accepting "[]"] h(4)
    by simp
qed

text \<open>
  C3, as stated, fails on the queue name. A REQUEST with no target and action \<^verbatim>\<open>foo\<close>,
  published with prefix \<^verbatim>\<open>MOL\<close>, is sent to \<^verbatim>\<open>MOL.REQUESTB.foo\<close>, not to
  \<^verbatim>\<open>MOL.REQUEST-LB.foo\<close>.
\<close>

theorem publish_request_counterexample:
  "snd (snd (publish spec_packets accepting [] online request_packet))
     = [SendToQueue ''MOL.REQUESTB.foo'' request_packet []]
   \<and> snd (snd (publish spec_packets accepting [] online request_packet))
     \<noteq> [SendToQueue ''MOL.REQUEST-LB.foo'' request_packet []]"
  by (simp add: publish_def online_simps request_packet_def spec_packets_def falsy_def
        tmpl_def)

text \<open>
  C3, amended. On an open channel, for every REQUEST packet with target null and
  \<^verbatim>\<open>payload.action\<close> equal to a name a (the REQUEST and EVENT type strings being different),
  \<^verbatim>\<open>publish\<close> makes exactly one call, a \<^verbatim>\<open>sendToQueue\<close> to the queue named prefix, dot, the
  REQUEST type string followed by \<^verbatim>\<open>B\<close>, dot, a; there is no exchange publish and no other
  queue send, and the caller's packet is unchanged.
\<close>

theorem publish_request_balanced:
  assumes "channel t \<noteq> None" and "type p = PACKET_REQUEST c" and "target p = None"
    and "action (payload p) = Some a" and "PACKET_REQUEST c \<noteq> PACKET_EVENT c"
  shows "publish c br services t p =
           (Promise_resolved, p,
            [SendToQueue (prefix t @ ''.'' @ PACKET_REQUEST c @ ''B.'' @ a) p
               (messageOptions (opts t))])"
  using assms by (auto simp add: publish_def tmpl_def)

theorem publish_request_balanced_witness:
  "publish spec_packets accepting [] online request_packet =
     (Promise_resolved, request_packet,
      [SendToQueue ''MOL.REQUESTB.foo'' request_packet []])"
proof -
  have h: "channel online \<noteq> None" "type request_packet = PACKET_REQUEST spec_packets"
    "target request_packet = None" "action (payload request_packet) = Some ''foo''"
    "PACKET_REQUEST spec_packets \<noteq> PACKET_EVENT spec_packets"
    by (simp_all add: online_simps request_packet_def spec_packets_def)
  show ?thesis
    using publish_request_balanced [OF h, of accepting "[]"]
    by (simp add: online_simps spec_packets_def)
qed

text \<open>
  C10. On an open channel, publishing an EVENT packet with target null whose
  \<^verbatim>\<open>payload.groups\<close> is present but empty makes no \<^verbatim>\<open>sendToQueue\<close> call and exactly one
  \<^verbatim>\<open>publish\<close> call, to the topic of the EVENT category with an empty routing key, and resolves
  (the EVENT type string being different from the REQUEST and INFO ones).
\<close>

theorem publish_event_empty_groups:
  assumes "channel t \<noteq> None" and "type p = PACKET_EVENT c" and "target p = None"
    and "groups (payload p) = Some []"
    and "PACKET_EVENT c \<noteq> PACKET_REQUEST c" and "PACKET_EVENT c \<noteq> PACKET_INFO c"
  shows "publish c br services t p =
           (Promise_resolved, p,
            [Publish (getTopicName t (PACKET_EVENT c) None) [] p (messageOptions (opts t))])"
  using assms by (auto simp add: publish_def falsy_def)

theorem publish_event_empty_groups_witness:
  "publish spec_packets accepting [] online broadcast_event_packet =
     (Promise_resolved, broadcast_event_packet,
      [Publish ''MOL.EVENT'' [] broadcast_event_packet []])"
proof -
  have h: "channel online \<noteq> None" "type broadcast_event_packet = PACKET_EVENT spec_packets"
    "target broadcast_event_packet = None" "groups (payload broadcast_event_packet) = Some []"
    "PACKET_EVENT spec_packets \<noteq> PACKET_REQUEST spec_packets"
    "PACKET_EVENT spec_packets \<noteq> PACKET_INFO spec_packets"
    by (simp_all add: online_simps broadcast_event_packet_def spec_packets_def)
  show ?thesis
    using publish_event_empty_groups [OF h, of accepting "[]"]
    by (simp add: online_simps spec_packets_def getTopicName_def)
qed

text \<open>
  C6. While the channel is absent, \<^verbatim>\<open>publish\<close> returns an already resolved promise for every
  packet and \<^verbatim>\<open>subscribe\<close> returns \<^verbatim>\<open>undefined\<close> for every request; neither makes any call,
  neither raises, the packet and the transporter (its binding registry included) are left as
  they were, and a caller awaiting either result sees no error.
\<close>

theorem absent_channel_is_noop:
  assumes "channel t = None"
  shows "publish c br services t p = (Promise_resolved, p, [])
       \<and> subscribe c br t cmd nid = (Undefined, t, [])
       \<and> awaited (fst (publish c br services t p)) = None
       \<and> awaited (fst (subscribe c br t cmd nid)) = None"
  using assms by (simp add: publish_def subscribe_def)

theorem absent_channel_is_noop_witness:
  "publish spec_packets accepting [math_service] fresh request_packet
     = (Promise_resolved, request_packet, [])
   \<and> subscribe spec_packets accepting fresh ''INFO'' None = (Undefined, fresh, [])"
proof -
  have h: "channel fresh = None"
    by (simp add: ctor_simps)
  show ?thesis
    using absent_channel_is_noop [OF h, of spec_packets accepting "[math_service]"
        request_packet "''INFO''" None]
    by simp
qed

section \<open>Acknowledging consumed messages\<close>




section \<open>Disconnecting\<close>

lemma subscribed_eq:
  "subscribed = online\<lparr>bindings := Some [(''MOL.INFO.node-1'', ''MOL.INFO'', [])]\<rparr>"
  by (simp add: subscribed_def subscribe_def online_simps getTopicName_def spec_packets_def
        getQueueOptions_def accepting_def consume_noAck_def Let_def)

text \<open>
  C7, as stated, fails. With one recorded binding and a broker that rejects the unbind,
  \<^verbatim>\<open>disconnect\<close> logs the error and stops: the channel and the connection are not closed and
  the handles are not cleared.
\<close>

theorem disconnect_failed_unbind_counterexample:
  "disconnect refusing_unbind subscribed =
     (Promise_resolved, subscribed,
      [UnbindQueue ''MOL.INFO.node-1'' ''MOL.INFO'' [],
       LogWarn (BrokerError ''unbind refused'')])
   \<and> channel subscribed = Some 1 \<and> connection subscribed = Some 1"
  by (simp add: subscribed_eq disconnect_def online_simps refusing_unbind_def unbind_def)

text \<open>
  C7, amended. With connection, channel and binding registry present, \<^verbatim>\<open>disconnect\<close>
  issues one unbind for every recorded binding, then closes the channel, then the
  connection, then clears the three handles. When a step fails, its error is logged as a
  warning and the steps after it are skipped: a rejected unbind leaves channel and
  connection open, a failed close of the channel leaves the connection open, and in both
  cases, as after a failed close of the connection, the handles stay set. The promise
  returned is resolved in every case, so no error reaches the caller.
\<close>

theorem disconnect_steps:
  assumes "connection t = Some conn" and "channel t = Some ch" and "bindings t = Some bs"
  shows "fst (disconnect br t) = Promise_resolved
    \<and> (first_rejection br (map unbind bs) = None \<and> br ChannelClose = None
         \<and> br ConnectionClose = None \<longrightarrow>
         snd (disconnect br t) =
           (t\<lparr>connection := None, channel := None, bindings := None\<rparr>,
            map unbind bs @ [ChannelClose, ConnectionClose]))
    \<and> (first_rejection br (map unbind bs) = Some e \<longrightarrow>
         snd (disconnect br t) = (t, map unbind bs @ [LogWarn e]))
    \<and> (first_rejection br (map unbind bs) = None \<and> br ChannelClose = Some e \<longrightarrow>
         snd (disconnect br t) = (t, map unbind bs @ [ChannelClose, LogWarn e]))
    \<and> (first_rejection br (map unbind bs) = None \<and> br ChannelClose = None
         \<and> br ConnectionClose = Some e \<longrightarrow>
         snd (disconnect br t) = (t, map unbind bs @ [ChannelClose, ConnectionClose, LogWarn e]))"
  using assms by (simp add: disconnect_def Let_def split: option.split)

theorem disconnect_steps_witness:
  "disconnect accepting subscribed =
     (Promise_resolved,
      subscribed\<lparr>connection := None, channel := None, bindings := None\<rparr>,
      [UnbindQueue ''MOL.INFO.node-1'' ''MOL.INFO'' [], ChannelClose, ConnectionClose])
   \<and> snd (disconnect refusing_unbind subscribed) =
       (subscribed,
        [UnbindQueue ''MOL.INFO.node-1'' ''MOL.INFO'' [],
         LogWarn (BrokerError ''unbind refused'')])"
proof -
  have h: "connection subscribed = Some 1" "channel subscribed = Some 1"
    "bindings subscribed = Some [(''MOL.INFO.node-1'', ''MOL.INFO'', [])]"
    by (simp_all add: subscribed_eq online_simps)
  have a: "first_rejection accepting
             (map unbind [(''MOL.INFO.node-1'', ''MOL.INFO'', [])]) = None"
    "accepting ChannelClose = None" "accepting ConnectionClose = None"
    by (simp_all add: accepting_def)
  have r: "first_rejection refusing_unbind
             (map unbind [(''MOL.INFO.node-1'', ''MOL.INFO'', [])])
           = Some (BrokerError ''unbind refused'')"
    by (simp add: refusing_unbind_def unbind_def)
  show ?thesis
    using disconnect_steps [OF h, of accepting "BrokerError ''unbind refused''"]
      disconnect_steps [OF h, of refusing_unbind "BrokerError ''unbind refused''"] a r
    by (simp add: unbind_def prod_eq_iff)
qed

section \<open>The binding registry\<close>

text \<open>
  On an open channel with a live registry, a broadcast subscription appends exactly one
  binding, whatever the broker answers, and leaves the rest of the transporter alone.
\<close>

lemma subscribe_records_binding:
  assumes "channel t = Some ch" and "bindings t = Some bs"
  shows "fst (snd (subscribe c br t cmd None)) =
           t\<lparr>bindings :=
                Some (bs @ [(prefix t @ ''.'' @ cmd @ ''.'' @ nodeID t,
                             getTopicName t cmd None, [])])\<rparr>"
  using assms by (simp add: subscribe_def Let_def split: sum.split option.split)

lemma subscribe_node_keeps_registry:
  "fst (snd (subscribe c br t cmd (Some n))) = t"
  by (simp add: subscribe_def Let_def split: sum.split option.split)

lemma disconnect_unbinds_each_once:
  assumes "connection t = Some conn" and "channel t = Some ch" and "bindings t = Some bs"
  shows "take (length bs) (snd (snd (disconnect br t))) = map unbind bs"
    and "ChannelClose \<notin> set (take (length bs) (snd (snd (disconnect br t))))"
  using assms
  by (auto simp add: disconnect_def Let_def unbind_def split: option.split)

lemma disconnect_when_disconnected:
  assumes "connection t = None \<or> channel t = None"
  shows "disconnect br t = (Undefined, t, [])"
  using assms by (auto simp add: disconnect_def split: option.split)

text \<open>
  C5 holds on a transporter that was connected once, and is broken by the code after a
  reconnect. \<^verbatim>\<open>disconnect\<close> sets \<^verbatim>\<open>this.bindings\<close> to null, where the constructor had set it
  to the empty list, and \<^verbatim>\<open>connect\<close> does not restore it. On a transporter that was
  connected, disconnected and connected again, a broadcast subscription raises a TypeError
  at \<^verbatim>\<open>this.bindings.push\<close> and records nothing, and \<^verbatim>\<open>disconnect\<close> returns without a single
  call although connection and channel are open.
\<close>

theorem subscribe_after_reconnect_throws:
  "subscribe spec_packets accepting reconnected ''DISCOVER'' None
     = (Threw TypeError, reconnected, [])
   \<and> channel reconnected = Some 2 \<and> connection reconnected = Some 2
   \<and> bindings reconnected = None
   \<and> disconnect accepting reconnected = (Undefined, reconnected, [])"
  by (simp add: reconnected_def subscribe_def disconnect_def online_simps accepting_def
        Let_def)

section \<open>The service topology\<close>

lemma declare_queues_plain:
  assumes "\<And>queue key cmd. (queue, key, cmd) \<in> set qs \<Longrightarrow>
             getQueueOptions c t key = Inr (Object_assign [] (queueOptions (opts t)))"
  shows "declare_queues c t qs = (None, map (decl_calls t) qs)"
  using assms
proof (induction qs)
  case Nil
  then show ?case by simp
next
  case (Cons d qs)
  obtain queue key cmd where d: "d = (queue, key, cmd)" by (cases d) auto
  have "getQueueOptions c t key = Inr (Object_assign [] (queueOptions (opts t)))"
    using Cons.prems [of queue key cmd] by (simp add: d)
  moreover have "declare_queues c t qs = (None, map (decl_calls t) qs)"
    using Cons.prems by (intro Cons.IH) auto
  ultimately show ?case by (simp add: d decl_calls_def)
qed

lemma service_queues_keys:
  assumes "(queue, key, cmd) \<in> set (service_queues c t s)"
  shows "key = PACKET_REQUEST c \<or> key = PACKET_EVENT c @ ''LB''"
  using assms
  by (auto simp add: service_queues_def action_queue_def event_queue_def
        split: if_splits option.splits)

lemma action_queue_listed:
  assumes "s \<in> set services" and "actions s = Some as" and "a \<in> set as"
  shows "action_queue c t a \<in> set (concat (map (service_queues c t) services))"
  using assms by (auto simp add: service_queues_def intro!: bexI [of _ s])

lemma event_queue_listed:
  assumes "s \<in> set services" and "events s = Some es" and "e \<in> set es"
  shows "event_queue c t s e \<in> set (concat (map (service_queues c t) services))"
  using assms
  by (auto simp add: service_queues_def intro!: bexI [of _ s] split: option.splits)

text \<open>
  The calls of the builder: every queue is declared, and the consumers of the confirmed
  queues follow.
\<close>

lemma makeServiceSpecificSubscriptions_calls:
  assumes "PACKET_EVENT c @ ''LB'' \<notin> set (categories c)"
  shows "snd (makeServiceSpecificSubscriptions c br services t) =
           map (fst \<circ> decl_calls t) (concat (map (service_queues c t) services))
         @ map (snd \<circ> decl_calls t)
             (filter (\<lambda>d. br (fst (decl_calls t d)) = None)
                (concat (map (service_queues c t) services)))"
proof -
  have "declare_queues c t (concat (map (service_queues c t) services))
          = (None, map (decl_calls t) (concat (map (service_queues c t) services)))"
  proof (rule declare_queues_plain)
    fix queue key cmd
    assume "(queue, key, cmd) \<in> set (concat (map (service_queues c t) services))"
    then have "key = PACKET_REQUEST c \<or> key = PACKET_EVENT c @ ''LB''"
      by (auto dest: service_queues_keys)
    then show "getQueueOptions c t key = Inr (Object_assign [] (queueOptions (opts t)))"
      using request_options [of key c t] event_LB_options [OF assms, of t] by auto
  qed
  then show ?thesis
    by (simp add: makeServiceSpecificSubscriptions_def Let_def filter_map comp_def)
qed

lemma declared_and_consumed:
  assumes "PACKET_EVENT c @ ''LB'' \<notin> set (categories c)"
    and "d \<in> set (concat (map (service_queues c t) services))"
  shows "fst (decl_calls t d) \<in> set (snd (makeServiceSpecificSubscriptions c br services t))"
    and "br (fst (decl_calls t d)) = None \<Longrightarrow>
           snd (decl_calls t d)
             \<in> set (snd (makeServiceSpecificSubscriptions c br services t))"
  using assms(2) unfolding makeServiceSpecificSubscriptions_calls [OF assms(1)]
  by auto

lemma makeService_needAck:
  assumes "PACKET_EVENT c @ ''LB'' \<notin> set (categories c)"
    and "Consume q k ack co \<in> set (snd (makeServiceSpecificSubscriptions c br services t))"
  shows "ack"
  using assms(2) unfolding makeServiceSpecificSubscriptions_calls [OF assms(1)]
  by (auto simp add: decl_calls_def)

lemma subscribe_no_needAck:
  assumes "Consume q k ack co \<in> set (snd (snd (subscribe c br t cmd nid)))"
  shows "\<not> ack"
  using assms
  by (auto simp add: subscribe_def consume_noAck_def Let_def
        split: option.splits sum.splits)

lemma publish_info:
  assumes "channel t \<noteq> None" and "type p = PACKET_INFO c" and "target p = None"
    and "PACKET_INFO c \<noteq> PACKET_REQUEST c" and "PACKET_INFO c \<noteq> PACKET_EVENT c"
  shows "snd (snd (publish c br services t p)) =
           Publish (getTopicName t (PACKET_INFO c) None) [] p (messageOptions (opts t))
             # snd (makeServiceSpecificSubscriptions c br services t)"
  using assms by (auto simp add: publish_def split: prod.splits)

lemma publish_other_no_consumer:
  assumes "\<not> (type p = PACKET_INFO c \<and> target p = None)"
  shows "Consume q k ack co \<notin> set (snd (snd (publish c br services t p)))"
proof (cases "channel t")
  case None
  then show ?thesis by (simp add: publish_def)
next
  case (Some ch)
  show ?thesis
  proof (cases "type p = PACKET_EVENT c \<and> falsy (target p) \<and>
                 (\<exists>g gs. groups (payload p) = Some (g # gs))")
    case True
    then obtain g gs where g: "groups (payload p) = Some (g # gs)" by auto
    from True g Some show ?thesis
      by (auto simp add: publish_def fold_send_group simp del: fold.simps)
  next
    case False
    have "(case (if type p = PACKET_EVENT c \<and> falsy (target p)
                 then groups (payload p) else None) of
             Some (g # gs) \<Rightarrow> x g gs | _ \<Rightarrow> y) = y" for x :: "string \<Rightarrow> string list \<Rightarrow> ret \<times> packet \<times> call list" and y
      using False by (auto split: option.split list.split)
    then show ?thesis
      using assms Some by (auto simp add: publish_def Let_def split: option.split)
  qed
qed

text \<open>
  C8. On an open channel, with pairwise different type strings, publishing an INFO packet
  with target null first publishes it to the topic of the INFO category with an empty
  routing key and then runs the service topology builder. For every action of a local
  service the builder declares the shared action queue and, once the broker has confirmed
  it, attaches a consumer of REQUEST packets with \<open>needAck\<close> set; for every event of a local
  service it declares the queue of the event's group, which is the configured group when that is
  present and not the empty string and the service's name otherwise, and attaches a consumer of EVENT packets with \<open>needAck\<close> set. Every
  consumer registered this way has \<open>needAck\<close> set, no consumer registered by \<^verbatim>\<open>subscribe\<close>
  has, and \<^verbatim>\<open>publish\<close> registers no consumer for any other packet.
\<close>

theorem publish_info_builds_service_topology:
  assumes "channel t \<noteq> None" and "type p = PACKET_INFO c" and "target p = None"
    and "distinct (policy_keys c)"
  shows "hd (snd (snd (publish c br services t p)))
           = Publish (getTopicName t (PACKET_INFO c) None) [] p (messageOptions (opts t))
    \<and> tl (snd (snd (publish c br services t p)))
           = snd (makeServiceSpecificSubscriptions c br services t)
    \<and> (\<forall>s \<in> set services. \<forall>as a. actions s = Some as \<and> a \<in> set as \<longrightarrow>
          AssertQueue (prefix t @ ''.'' @ PACKET_REQUEST c @ ''B.'' @ a)
             (Object_assign [] (queueOptions (opts t)))
            \<in> set (snd (snd (publish c br services t p)))
        \<and> (br (AssertQueue (prefix t @ ''.'' @ PACKET_REQUEST c @ ''B.'' @ a)
                  (Object_assign [] (queueOptions (opts t)))) = None \<longrightarrow>
             Consume (prefix t @ ''.'' @ PACKET_REQUEST c @ ''B.'' @ a) (PACKET_REQUEST c)
                True (consumeOptions (opts t))
               \<in> set (snd (snd (publish c br services t p)))))
    \<and> (\<forall>s \<in> set services. \<forall>es ev g. events s = Some es \<and> (ev, g) \<in> set es \<longrightarrow>
          AssertQueue
             (prefix t @ ''.'' @ PACKET_EVENT c @ ''B.''
                @ (case g of None \<Rightarrow> name s | Some x \<Rightarrow> if x = [] then name s else x)
                @ ''.'' @ ev)
             (Object_assign [] (queueOptions (opts t)))
            \<in> set (snd (snd (publish c br services t p)))
        \<and> (br (AssertQueue
                  (prefix t @ ''.'' @ PACKET_EVENT c @ ''B.''
                     @ (case g of None \<Rightarrow> name s | Some x \<Rightarrow> if x = [] then name s else x)
                     @ ''.'' @ ev)
                  (Object_assign [] (queueOptions (opts t)))) = None \<longrightarrow>
             Consume
                (prefix t @ ''.'' @ PACKET_EVENT c @ ''B.''
                   @ (case g of None \<Rightarrow> name s | Some x \<Rightarrow> if x = [] then name s else x)
                   @ ''.'' @ ev)
                (PACKET_EVENT c) True (consumeOptions (opts t))
               \<in> set (snd (snd (publish c br services t p)))))
    \<and> (\<forall>q k ack co. Consume q k ack co \<in> set (snd (snd (publish c br services t p)))
          \<longrightarrow> ack)
    \<and> (\<forall>q k ack co cmd nid t'.
          Consume q k ack co \<in> set (snd (snd (subscribe c br t' cmd nid))) \<longrightarrow> \<not> ack)
    \<and> (\<forall>q k ack co p' t'. \<not> (type p' = PACKET_INFO c \<and> target p' = None) \<longrightarrow>
          Consume q k ack co \<notin> set (snd (snd (publish c br services t' p'))))"
proof -
  let ?calls = "snd (snd (publish c br services t p))"
  let ?built = "snd (makeServiceSpecificSubscriptions c br services t)"
  note d = distinct_policy_keys [OF assms(4)]
  have lb: "PACKET_EVENT c @ ''LB'' \<notin> set (categories c)" by (rule d(1))
  have ne: "PACKET_INFO c \<noteq> PACKET_REQUEST c" "PACKET_INFO c \<noteq> PACKET_EVENT c"
    using d(3) by blast+
  have calls: "?calls =
      Publish (getTopicName t (PACKET_INFO c) None) [] p (messageOptions (opts t)) # ?built"
    by (rule publish_info [OF assms(1-3) ne])
  have built: "set ?built \<subseteq> set ?calls"
    by (auto simp add: calls)
  have acts: "AssertQueue (prefix t @ ''.'' @ PACKET_REQUEST c @ ''B.'' @ a)
             (Object_assign [] (queueOptions (opts t))) \<in> set ?calls
        \<and> (br (AssertQueue (prefix t @ ''.'' @ PACKET_REQUEST c @ ''B.'' @ a)
                  (Object_assign [] (queueOptions (opts t)))) = None \<longrightarrow>
             Consume (prefix t @ ''.'' @ PACKET_REQUEST c @ ''B.'' @ a) (PACKET_REQUEST c)
                True (consumeOptions (opts t)) \<in> set ?calls)"
    if "s \<in> set services" "actions s = Some as" "a \<in> set as" for s as a
    using declared_and_consumed [OF lb action_queue_listed [OF that], where br = br] built
    by (auto simp add: decl_calls_def action_queue_def)
  have evts: "AssertQueue
             (prefix t @ ''.'' @ PACKET_EVENT c @ ''B.''
                @ (case g of None \<Rightarrow> name s | Some x \<Rightarrow> if x = [] then name s else x)
                @ ''.'' @ ev)
             (Object_assign [] (queueOptions (opts t))) \<in> set ?calls
        \<and> (br (AssertQueue
                  (prefix t @ ''.'' @ PACKET_EVENT c @ ''B.''
                     @ (case g of None \<Rightarrow> name s | Some x \<Rightarrow> if x = [] then name s else x)
                     @ ''.'' @ ev)
                  (Object_assign [] (queueOptions (opts t)))) = None \<longrightarrow>
             Consume
                (prefix t @ ''.'' @ PACKET_EVENT c @ ''B.''
                   @ (case g of None \<Rightarrow> name s | Some x \<Rightarrow> if x = [] then name s else x)
                   @ ''.'' @ ev)
                (PACKET_EVENT c) True (consumeOptions (opts t)) \<in> set ?calls)"
    if "s \<in> set services" "events s = Some es" "(ev, g) \<in> set es" for s es ev g
    using declared_and_consumed [OF lb event_queue_listed [OF that], where br = br] built
    by (auto simp add: decl_calls_def event_queue_def group_of_def)
  have ack: "ack" if "Consume q k ack co \<in> set ?calls" for q k ack co
    using that makeService_needAck [OF lb, of q k ack co br services t]
    by (auto simp add: calls)
  show ?thesis
    using acts evts ack subscribe_no_needAck publish_other_no_consumer
    by (simp add: calls) blast
qed

theorem publish_info_builds_service_topology_witness:
  "snd (snd (publish spec_packets accepting [math_service] online info_packet)) =
     [Publish ''MOL.INFO'' [] info_packet [],
      AssertQueue ''MOL.REQUESTB.math.add'' [],
      AssertQueue ''MOL.EVENTB.math.user.created'' [],
      AssertQueue ''MOL.EVENTB.billing.order.paid'' [],
      Consume ''MOL.REQUESTB.math.add'' ''REQUEST'' True [],
      Consume ''MOL.EVENTB.math.user.created'' ''EVENT'' True [],
      Consume ''MOL.EVENTB.billing.order.paid'' ''EVENT'' True []]
   \<and> hd (snd (snd (publish spec_packets accepting [math_service] online info_packet)))
       = Publish (getTopicName online ''INFO'' None) [] info_packet []"
proof -
  have h: "channel online \<noteq> None" "type info_packet = PACKET_INFO spec_packets"
    "target info_packet = None"
    by (simp_all add: online_simps info_packet_def spec_packets_def)
  have x: "snd (snd (publish spec_packets accepting [math_service] online info_packet)) =
     [Publish ''MOL.INFO'' [] info_packet [],
      AssertQueue ''MOL.REQUESTB.math.add'' [],
      AssertQueue ''MOL.EVENTB.math.user.created'' [],
      AssertQueue ''MOL.EVENTB.billing.order.paid'' [],
      Consume ''MOL.REQUESTB.math.add'' ''REQUEST'' True [],
      Consume ''MOL.EVENTB.math.user.created'' ''EVENT'' True [],
      Consume ''MOL.EVENTB.billing.order.paid'' ''EVENT'' True []]"
    by (simp add: publish_def makeServiceSpecificSubscriptions_def service_queues_def
          action_queue_def event_queue_def group_of_def getQueueOptions_def
          getTopicName_def math_service_def info_packet_def online_simps spec_packets_def
          accepting_def falsy_def Let_def)
  have m: "messageOptions (opts online) = []"
    by (simp add: online_simps)
  show ?thesis
    using publish_info_builds_service_topology
            [OF h distinct_spec_packets, of accepting "[math_service]"] x m
    by (simp add: spec_packets_def)
qed

end
